theory Spec2Isabelle
  imports Main
begin

section \<open>Python and torch values handled by \<^verbatim>\<open>unets/unet.py\<close>\<close>

text \<open>
  The exceptions the module can raise. \<^verbatim>\<open>ValueError\<close> carries the message the source
  builds; \<^verbatim>\<open>TypeError\<close> (\<^verbatim>\<open>len(None)\<close>), \<^verbatim>\<open>KeyError\<close> (a key missing from the
  configuration mapping) and \<^verbatim>\<open>IndexError\<close> (\<^verbatim>\<open>down[-1]\<close> on an empty list) are the
  implicit raises of the interpreter.
\<close>

datatype error = ValueError string | TypeError string | KeyError string | IndexError string

text \<open>
  A tensor as \<^verbatim>\<open>forward\<close> is annotated to take it: four axes
  \<^verbatim>\<open>['b', 'fi', 'hi', 'wi']\<close>, the gradient-tracking flag, and its content. The
  decorator \<^verbatim>\<open>dimchecked\<close> of the third-party package \<^verbatim>\<open>torch_dimcheck\<close> is not part
  of the model: the definitions below are the decorated body.
\<close>

record 'a tensor =
  batch :: nat
  channels :: nat
  height :: nat
  width :: nat
  requires_grad :: bool
  content :: 'a

text \<open>\<^verbatim>\<open>t.size(k)\<close>, for an axis \<open>k\<close> of the four.\<close>

definition tensor_size :: "'a tensor \<Rightarrow> nat \<Rightarrow> nat" where
  "tensor_size t k = [batch t, channels t, height t, width t] ! k"

text \<open>A positional or keyword argument of a module call: a tensor or some other object.\<close>

datatype 'a pyarg = Tensor "'a tensor" | PyInt int | PyNone

text \<open>\<^verbatim>\<open>torch.is_tensor(arg)\<close> and \<^verbatim>\<open>arg.requires_grad\<close>.\<close>

fun is_tensor :: "'a pyarg \<Rightarrow> bool" where
  "is_tensor (Tensor t) = True"
| "is_tensor (PyInt i) = False"
| "is_tensor PyNone = False"

fun arg_requires_grad :: "'a pyarg \<Rightarrow> bool" where
  "arg_requires_grad (Tensor t) = requires_grad t"
| "arg_requires_grad (PyInt i) = False"
| "arg_requires_grad PyNone = False"

text \<open>
  A parameter of a module: its identity (two modules may share one parameter object),
  its element count \<^verbatim>\<open>numel()\<close> and its own gradient-tracking flag.
\<close>

record param =
  ident :: nat
  numel :: nat
  p_requires_grad :: bool

text \<open>
  A \<^verbatim>\<open>torch.nn.Module\<close>: what \<^verbatim>\<open>forward(*args, **kwargs)\<close> returns and what
  \<^verbatim>\<open>parameters()\<close> yields. Blocks are stateful objects (buffers, the random number
  generator of a dropout layer, call hooks), so a call takes the state \<open>'s\<close> of the
  world outside the network and returns it updated. The blocks themselves live in
  \<^verbatim>\<open>blocks.py\<close> and are parameters of everything below.
\<close>

type_synonym ('a, 's) fwd =
  "'a pyarg list \<Rightarrow> (string \<times> 'a pyarg) list \<Rightarrow> 's \<Rightarrow> 'a tensor \<times> 's"

record ('a, 's) module =
  forward :: "('a, 's) fwd"
  parameters :: "param list"

section \<open>Python built-ins\<close>

text \<open>\<^verbatim>\<open>any(P(x) for x in xs)\<close>: stops at the first element that satisfies \<open>P\<close>.\<close>

fun any_py :: "('x \<Rightarrow> bool) \<Rightarrow> 'x list \<Rightarrow> bool" where
  "any_py P [] = False"
| "any_py P (x # xs) = (if P x then True else any_py P xs)"

text \<open>
  The slice \<^verbatim>\<open>xs[-2::-1]\<close>: from index \<^verbatim>\<open>len(xs) - 2\<close> down to index 0, both
  included; empty when the list has fewer than two elements.
\<close>

definition slice_m2_rev :: "'x list \<Rightarrow> 'x list" where
  "slice_m2_rev xs =
     (if length xs < 2 then []
      else map (\<lambda>k. xs ! (length xs - 2 - k)) [0..<length xs - 1])"

text \<open>\<^verbatim>\<open>str(n)\<close> for an integer, as \<^verbatim>\<open>str.format\<close> and an f-string render it.\<close>

fun str_nat :: "nat \<Rightarrow> string" where
  "str_nat n =
     (if n < 10 then [''0123456789'' ! n]
      else str_nat (n div 10) @ [''0123456789'' ! (n mod 10)])"

declare str_nat.simps [simp del]

definition str_int :: "int \<Rightarrow> string" where
  "str_int i = (if i < 0 then CHR ''-'' # str_nat (nat (- i)) else str_nat (nat i))"

section \<open>The recomputation wrapper \<^verbatim>\<open>checkpointed\<close>\<close>

text \<open>
  A callable with the signature \<^verbatim>\<open>(*args, **kwargs)\<close>, whatever a call of it comes to:
  \<open>'r\<close> is \<open>'a tensor \<times> 's\<close> for the \<^verbatim>\<open>forward\<close> of a block that returns, and
  \<open>(error + 'a tensor) \<times> 's\<close> where a call may raise.
\<close>

type_synonym ('a, 's, 'r) callable =
  "'a pyarg list \<Rightarrow> (string \<times> 'a pyarg) list \<Rightarrow> 's \<Rightarrow> 'r"

text \<open>
  \<^verbatim>\<open>Checkpointed.forward\<close> (lines 39 to 44). \<^verbatim>\<open>torch.utils.checkpoint.checkpoint\<close> is
  a parameter: it takes the function and its arguments.
\<close>

definition Checkpointed_forward ::
  "(('a, 's, 'r) callable \<Rightarrow> ('a, 's, 'r) callable) \<Rightarrow> ('a, 's, 'r) callable
     \<Rightarrow> ('a, 's, 'r) callable" where
  "Checkpointed_forward checkpoint super_fwd args kwargs s =
     (if any_py (\<lambda>arg. is_tensor arg \<and> arg_requires_grad arg) args
      then checkpoint super_fwd args kwargs s
      else super_fwd args kwargs s)"

text \<open>
  \<^verbatim>\<open>checkpointed(cls)\<close> (lines 34 to 46): the subclass whose instances are built as
  those of \<open>cls\<close> and differ in \<^verbatim>\<open>forward\<close> only. A class is its constructor. The
  assertion \<^verbatim>\<open>issubclass(cls, torch.nn.Module)\<close> holds by the type of \<open>cls\<close>.
\<close>

definition checkpointed ::
  "(('a, 's) fwd \<Rightarrow> ('a, 's) fwd) \<Rightarrow> ('args \<Rightarrow> 's \<Rightarrow> ('a, 's) module \<times> 's)
     \<Rightarrow> ('args \<Rightarrow> 's \<Rightarrow> ('a, 's) module \<times> 's)" where
  "checkpointed checkpoint cls ctor_args s =
     (case cls ctor_args s of
        (m, s1) \<Rightarrow> (m\<lparr>forward := Checkpointed_forward checkpoint (forward m)\<rparr>, s1))"

section \<open>\<^verbatim>\<open>torch.utils.checkpoint.checkpoint\<close>\<close>




section \<open>Construction: \<^verbatim>\<open>Unet.__init__\<close>\<close>

text \<open>
  The arguments of the two block constructors, as lines 71 to 73 and 80 to 82 pass
  them. \<open>setup_kw\<close> stands for the configuration mapping handed on to the block: its
  entries other than the three that \<^verbatim>\<open>Unet.__init__\<close> reads itself.
\<close>

record 'c block_args =
  d_out :: int
  size_kw :: int
  name_kw :: string
  setup_kw :: 'c

record 'c down_args = "'c block_args" +
  d_in :: int
  is_first :: bool

record 'c up_args = "'c block_args" +
  d_bot :: int
  d_hor :: int

type_synonym ('a, 's, 'c) down_class = "'c down_args \<Rightarrow> 's \<Rightarrow> ('a, 's) module \<times> 's"
type_synonym ('a, 's, 'c) up_class = "'c up_args \<Rightarrow> 's \<Rightarrow> ('a, 's) module \<times> 's"

text \<open>
  The configuration mapping (\<^verbatim>\<open>fat_setup\<close>, \<^verbatim>\<open>thin_setup\<close>, or any other dict): the
  three keys the constructor looks up, \<open>None\<close> when the key is absent, and the rest.
\<close>

record ('a, 's, 'c) setup_dict =
  down_block :: "('a, 's, 'c) down_class option"
  up_block :: "('a, 's, 'c) up_class option"
  checkpointed_key :: "bool option"
  other_keys :: 'c

text \<open>The object under construction: the attributes \<^verbatim>\<open>__init__\<close> sets.\<close>

record ('a, 's) unet =
  up :: "int list"
  down :: "int list"
  in_features :: int
  path_down :: "('a, 's) module list"
  path_up :: "('a, 's) module list"
  n_params :: nat

text \<open>
  Lines 68 and 70 to 73: the constructor call of each iteration of the first loop, over
  \<^verbatim>\<open>enumerate(zip(down_dims[:-1], down_dims[1:]))\<close>.
\<close>

definition down_block_args :: "int \<Rightarrow> int list \<Rightarrow> int \<Rightarrow> 'c \<Rightarrow> 'c down_args list" where
  "down_block_args in_feats downs size_arg stp =
     (let down_dims = [in_feats] @ downs in
      map (\<lambda>(i, (din, dout)).
             \<lparr>d_out = dout, size_kw = size_arg, name_kw = ''down_'' @ str_nat i,
              setup_kw = stp, d_in = din, is_first = (i = 0)\<rparr>)
          (enumerate 0 (zip (butlast down_dims) (tl down_dims))))"

text \<open>Line 77: \<^verbatim>\<open>hor_dims = down_dims[-2::-1]\<close>.\<close>

definition hor_dims :: "int \<Rightarrow> int list \<Rightarrow> int list" where
  "hor_dims in_feats downs = slice_m2_rev ([in_feats] @ downs)"

text \<open>
  Lines 76 to 82: the constructor call of each iteration of the second loop, over
  \<^verbatim>\<open>enumerate(zip(bot_dims, hor_dims, up))\<close>. \<open>down_last\<close> is \<^verbatim>\<open>down[-1]\<close>.
\<close>

definition up_block_args ::
  "int \<Rightarrow> int list \<Rightarrow> int \<Rightarrow> int list \<Rightarrow> int \<Rightarrow> 'c \<Rightarrow> 'c up_args list" where
  "up_block_args in_feats downs down_last ups size_arg stp =
     (let bot_dims = [down_last] @ ups in
      map (\<lambda>(i, (dbot, (dhor, dout))).
             \<lparr>d_out = dout, size_kw = size_arg, name_kw = ''up_'' @ str_nat i,
              setup_kw = stp, d_bot = dbot, d_hor = dhor\<rparr>)
          (enumerate 0 (zip bot_dims (zip (hor_dims in_feats downs) ups))))"

text \<open>
  The body of both loops: call the class, append the block. The state is threaded
  through the constructor calls in order.
\<close>

fun instantiate ::
  "('args \<Rightarrow> 's \<Rightarrow> 'm \<times> 's) \<Rightarrow> 'args list \<Rightarrow> 's \<Rightarrow> 'm list \<times> 's" where
  "instantiate cls [] s = ([], s)"
| "instantiate cls (a # rest) s =
     (case cls a s of (block, s1) \<Rightarrow>
        (case instantiate cls rest s1 of (blocks, s2) \<Rightarrow> (block # blocks, s2)))"

text \<open>
  \<^verbatim>\<open>self.parameters()\<close> of the assembled network: the parameters of the blocks of
  \<^verbatim>\<open>path_down\<close>, then those of \<^verbatim>\<open>path_up\<close> (the order the two module lists are
  registered in), each parameter object once (torch keeps a memo of the objects seen).
\<close>

fun dedup_params :: "param list \<Rightarrow> nat list \<Rightarrow> param list" where
  "dedup_params [] memo = []"
| "dedup_params (p # ps) memo =
     (if ident p \<in> set memo then dedup_params ps memo
      else p # dedup_params ps (ident p # memo))"

definition Unet_parameters ::
  "('a, 's) module list \<Rightarrow> ('a, 's) module list \<Rightarrow> param list" where
  "Unet_parameters pdown pup =
     dedup_params (concat (map parameters pdown) @ concat (map parameters pup)) []"

text \<open>Lines 85 to 87: the loop that adds up \<^verbatim>\<open>param.numel()\<close>.\<close>

definition count_params :: "param list \<Rightarrow> nat" where
  "count_params ps = fold (\<lambda>p n. n + numel p) ps 0"

text \<open>
  \<^verbatim>\<open>Unet.__init__\<close> (lines 49 to 87). The schedules are optional arguments with
  default \<^verbatim>\<open>None\<close>. The result is the error raised or the object built, and the state
  after the constructor calls that were made.
\<close>

definition Unet_init ::
  "(('a, 's) fwd \<Rightarrow> ('a, 's) fwd) \<Rightarrow> int \<Rightarrow> int list option \<Rightarrow> int list option \<Rightarrow> int
     \<Rightarrow> ('a, 's, 'c) setup_dict \<Rightarrow> 's \<Rightarrow> (error + ('a, 's) unet) \<times> 's" where
  "Unet_init checkpoint in_feats up_arg down_arg size_arg stp s =
     (case down_arg of
        None \<Rightarrow> (Inl (TypeError ''object of type 'NoneType' has no len()''), s)
      | Some downs \<Rightarrow>
     (case up_arg of
        None \<Rightarrow> (Inl (TypeError ''object of type 'NoneType' has no len()''), s)
      | Some ups \<Rightarrow>
     if \<not> (length downs = length ups + 1)
     then (Inl (ValueError ''`down` must be 1 item longer than `up`''), s)
     else
     (case down_block stp of
        None \<Rightarrow> (Inl (KeyError ''down_block''), s)
      | Some DownBlock0 \<Rightarrow>
     (case up_block stp of
        None \<Rightarrow> (Inl (KeyError ''up_block''), s)
      | Some UpBlock0 \<Rightarrow>
     (let wrapped = (checkpointed_key stp = Some True);
          UpBlock = (if wrapped then checkpointed checkpoint UpBlock0 else UpBlock0);
          DownBlock = (if wrapped then checkpointed checkpoint DownBlock0 else DownBlock0)
      in
      (case instantiate DownBlock
              (down_block_args in_feats downs size_arg (other_keys stp)) s of
         (pdown, s1) \<Rightarrow>
      if downs = [] then (Inl (IndexError ''list index out of range''), s1)
      else
      (case instantiate UpBlock
              (up_block_args in_feats downs (last downs) ups size_arg (other_keys stp)) s1 of
         (pup, s2) \<Rightarrow>
      (Inr \<lparr>up = ups, down = downs, in_features = in_feats,
            path_down = pdown, path_up = pup,
            n_params = count_params (Unet_parameters pdown pup)\<rparr>, s2))))))))"

section \<open>The forward pass: \<^verbatim>\<open>Unet.forward\<close>\<close>

text \<open>
  Lines 98 and 99: each layer is called on \<^verbatim>\<open>features[-1]\<close> and its result appended.
\<close>

fun encoder_loop ::
  "('a, 's) module list \<Rightarrow> 'a tensor list \<Rightarrow> 's \<Rightarrow> 'a tensor list \<times> 's" where
  "encoder_loop [] features s = (features, s)"
| "encoder_loop (layer # rest) features s =
     (case forward layer [Tensor (last features)] [] s of
        (y, s1) \<Rightarrow> encoder_loop rest (features @ [y]) s1)"

text \<open>Lines 104 and 105: each layer is called on the running \<^verbatim>\<open>f_bot\<close> and its skip.\<close>

fun decoder_loop ::
  "(('a, 's) module \<times> 'a tensor) list \<Rightarrow> 'a tensor \<Rightarrow> 's \<Rightarrow> 'a tensor \<times> 's" where
  "decoder_loop [] f_bot s = (f_bot, s)"
| "decoder_loop ((layer, f_hor) # rest) f_bot s =
     (case forward layer [Tensor f_bot, Tensor f_hor] [] s of
        (f_bot1, s1) \<Rightarrow> decoder_loop rest f_bot1 s1)"

text \<open>\<^verbatim>\<open>Unet.forward\<close> (lines 91 to 107).\<close>

definition Unet_forward ::
  "('a, 's) unet \<Rightarrow> 'a tensor \<Rightarrow> 's \<Rightarrow> (error + 'a tensor) \<times> 's" where
  "Unet_forward self inp s =
     (if int (tensor_size inp 1) \<noteq> in_features self
      then (Inl (ValueError (''Expected '' @ str_int (in_features self)
                  @ '' feature channels in input, got ''
                  @ str_int (int (tensor_size inp 1)))), s)
      else
      (case encoder_loop (path_down self) [inp] s of
         (features, s1) \<Rightarrow>
      (let f_bot = last features;
           features_horizontal = slice_m2_rev features
       in
       (case decoder_loop (zip (path_up self) features_horizontal) f_bot s1 of
          (f_bot1, s2) \<Rightarrow> (Inr f_bot1, s2)))))"

text \<open>
  The local variables \<^verbatim>\<open>features\<close> (after the loop of lines 98 and 99) and
  \<^verbatim>\<open>features_horizontal\<close> (line 102) of a call of \<^verbatim>\<open>forward\<close> that passed the
  channel check.
\<close>

definition forward_features :: "('a, 's) unet \<Rightarrow> 'a tensor \<Rightarrow> 's \<Rightarrow> 'a tensor list" where
  "forward_features self inp s = fst (encoder_loop (path_down self) [inp] s)"

definition features_horizontal :: "('a, 's) unet \<Rightarrow> 'a tensor \<Rightarrow> 's \<Rightarrow> 'a tensor list" where
  "features_horizontal self inp s = slice_m2_rev (forward_features self inp s)"

section \<open>Probe blocks\<close>

text \<open>
  Concrete blocks on which the general theorems are instantiated. The state is a
  counter of the constructor and \<^verbatim>\<open>forward\<close> calls made so far. A down probe returns a
  tensor of its declared width whose content is its own name; an up probe returns one
  whose content also records the contents of the two tensors it was given, so that the
  output of a network of probes spells out its wiring.
\<close>

definition probe_down_forward :: "string \<Rightarrow> int \<Rightarrow> (string, nat) fwd" where
  "probe_down_forward nm c args kwargs n =
     (\<lparr>batch = 1, channels = nat c, height = 1, width = 1, requires_grad = False,
       content = nm\<rparr>, Suc n)"

fun probe_up_forward :: "string \<Rightarrow> int \<Rightarrow> (string, nat) fwd" where
  "probe_up_forward nm c [Tensor f_bot, Tensor f_hor] kwargs n =
     (\<lparr>batch = 1, channels = nat c, height = 1, width = 1, requires_grad = False,
       content = nm @ ''('' @ content f_bot @ '','' @ content f_hor @ '')''\<rparr>, Suc n)"
| "probe_up_forward nm c args kwargs n =
     (\<lparr>batch = 1, channels = nat c, height = 1, width = 1, requires_grad = False,
       content = nm\<rparr>, Suc n)"

definition ProbeDown :: "(string, nat, unit) down_class" where
  "ProbeDown a n =
     (\<lparr>forward = probe_down_forward (name_kw a) (d_out a),
       parameters = [\<lparr>ident = n, numel = nat (d_in a * d_out a), p_requires_grad = True\<rparr>]\<rparr>,
      Suc n)"

definition ProbeUp :: "(string, nat, unit) up_class" where
  "ProbeUp a n =
     (\<lparr>forward = probe_up_forward (name_kw a) (d_out a),
       parameters = [\<lparr>ident = n, numel = nat ((d_bot a + d_hor a) * d_out a),
                      p_requires_grad = True\<rparr>]\<rparr>,
      Suc n)"

definition probe_setup :: "(string, nat, unit) setup_dict" where
  "probe_setup =
     \<lparr>down_block = Some ProbeDown, up_block = Some ProbeUp, checkpointed_key = None,
      other_keys = ()\<rparr>"

definition probe_input :: "nat \<Rightarrow> string tensor" where
  "probe_input c =
     \<lparr>batch = 1, channels = c, height = 1, width = 1, requires_grad = False,
      content = ''inp''\<rparr>"


text \<open>
  The network \<^verbatim>\<open>Unet(in_features=1, up=[32, 16], down=[16, 32, 64], size=5)\<close> over the
  probes, as the constructor builds it from the state 0.
\<close>

definition probe_net :: "(string, nat) unet" where
  "probe_net =
     \<lparr>up = [32, 16], down = [16, 32, 64], in_features = 1,
      path_down =
        [\<lparr>forward = probe_down_forward ''down_0'' 16,
          parameters = [\<lparr>ident = 0, numel = 16, p_requires_grad = True\<rparr>]\<rparr>,
         \<lparr>forward = probe_down_forward ''down_1'' 32,
          parameters = [\<lparr>ident = 1, numel = 512, p_requires_grad = True\<rparr>]\<rparr>,
         \<lparr>forward = probe_down_forward ''down_2'' 64,
          parameters = [\<lparr>ident = 2, numel = 2048, p_requires_grad = True\<rparr>]\<rparr>],
      path_up =
        [\<lparr>forward = probe_up_forward ''up_0'' 32,
          parameters = [\<lparr>ident = 3, numel = 3072, p_requires_grad = True\<rparr>]\<rparr>,
         \<lparr>forward = probe_up_forward ''up_1'' 16,
          parameters = [\<lparr>ident = 4, numel = 768, p_requires_grad = True\<rparr>]\<rparr>],
      n_params = 6416\<rparr>"

text \<open>
  A down block whose only parameter has gradient tracking switched off, and the
  one-stage network \<^verbatim>\<open>Unet(in_features=1, up=[], down=[4], size=5)\<close> over it.
\<close>

definition FrozenDown :: "(string, nat, unit) down_class" where
  "FrozenDown a n =
     (\<lparr>forward = probe_down_forward (name_kw a) (d_out a),
       parameters = [\<lparr>ident = n, numel = 3, p_requires_grad = False\<rparr>]\<rparr>,
      Suc n)"

definition frozen_setup :: "(string, nat, unit) setup_dict" where
  "frozen_setup =
     \<lparr>down_block = Some FrozenDown, up_block = Some ProbeUp, checkpointed_key = None,
      other_keys = ()\<rparr>"

definition frozen_net :: "(string, nat) unet" where
  "frozen_net =
     \<lparr>up = [], down = [4], in_features = 1,
      path_down =
        [\<lparr>forward = probe_down_forward ''down_0'' 4,
          parameters = [\<lparr>ident = 0, numel = 3, p_requires_grad = False\<rparr>]\<rparr>],
      path_up = [],
      n_params = 3\<rparr>"

section \<open>Facts about the slices and the schedules\<close>

lemma slice_m2_rev_eq: "slice_m2_rev xs = rev (butlast xs)"
proof (cases "length xs < 2")
  case True
  then have "xs = [] \<or> (\<exists>x. xs = [x])"
    by (cases xs) (auto simp: length_Suc_conv)
  then show ?thesis by (auto simp: slice_m2_rev_def)
next
  case False
  then have n: "2 \<le> length xs" by simp
  show ?thesis
  proof (rule nth_equalityI)
    show "length (slice_m2_rev xs) = length (rev (butlast xs))"
      using n by (simp add: slice_m2_rev_def)
  next
    fix i assume "i < length (slice_m2_rev xs)"
    then have i: "i < length xs - 1" using n by (simp add: slice_m2_rev_def)
    then have "rev (butlast xs) ! i = butlast xs ! (length xs - 1 - Suc i)"
      by (simp add: rev_nth)
    also have "\<dots> = xs ! (length xs - 2 - i)"
      using i by (simp add: nth_butlast)
    finally show "slice_m2_rev xs ! i = rev (butlast xs) ! i"
      using i n by (simp add: slice_m2_rev_def)
  qed
qed

lemma length_down_block_args: "length (down_block_args nf downs sz stp) = length downs"
  by (simp add: down_block_args_def enumerate_eq_zip)

lemma length_hor_dims: "length (hor_dims nf downs) = length downs"
  by (simp add: hor_dims_def slice_m2_rev_eq)

lemma length_up_block_args:
  "length ups < length downs \<Longrightarrow> length (up_block_args nf downs dl ups sz stp) = length ups"
  by (simp add: up_block_args_def enumerate_eq_zip length_hor_dims)

lemma hor_dims_eq: "downs \<noteq> [] \<Longrightarrow> hor_dims nf downs = rev (butlast downs) @ [nf]"
  by (simp add: hor_dims_def slice_m2_rev_eq)

lemma hor_dims_nth:
  assumes "i < length downs - 1"
  shows "hor_dims nf downs ! i = downs ! (length downs - 2 - i)"
proof -
  from assms have ne: "downs \<noteq> []" by auto
  have "hor_dims nf downs ! i = rev (butlast downs) ! i"
    using assms by (simp add: hor_dims_eq [OF ne] nth_append)
  also have "\<dots> = butlast downs ! (length (butlast downs) - Suc i)"
    using assms by (simp add: rev_nth)
  also have "\<dots> = downs ! (length downs - 2 - i)"
    using assms by (simp add: nth_butlast)
  finally show ?thesis .
qed

lemma hor_dims_last: "downs \<noteq> [] \<Longrightarrow> hor_dims nf downs ! (length downs - 1) = nf"
  by (simp add: hor_dims_eq nth_append)

lemma down_block_args_nth:
  assumes "i < length downs"
  shows "down_block_args nf downs sz stp ! i =
    \<lparr>d_out = downs ! i, size_kw = sz, name_kw = ''down_'' @ str_nat i, setup_kw = stp,
     d_in = ([nf] @ downs) ! i, is_first = (i = 0)\<rparr>"
proof -
  have "zip (butlast ([nf] @ downs)) (tl ([nf] @ downs)) ! i = (([nf] @ downs) ! i, downs ! i)"
    using assms by (simp add: nth_butlast del: butlast.simps)
  then show ?thesis
    using assms
    by (simp add: down_block_args_def nth_enumerate_eq del: butlast.simps)
qed

lemma up_block_args_nth:
  assumes "length downs = length ups + 1" and "i < length ups"
  shows "up_block_args nf downs dl ups sz stp ! i =
    \<lparr>d_out = ups ! i, size_kw = sz, name_kw = ''up_'' @ str_nat i, setup_kw = stp,
     d_bot = ([dl] @ ups) ! i, d_hor = hor_dims nf downs ! i\<rparr>"
  using assms
  by (simp add: up_block_args_def nth_enumerate_eq length_hor_dims nth_append)

section \<open>Facts about construction\<close>

lemma length_instantiate: "length (fst (instantiate cls xs s)) = length xs"
proof (induction xs arbitrary: s)
  case Nil
  show ?case by simp
next
  case (Cons a xs)
  obtain b s1 where b: "cls a s = (b, s1)" by (cases "cls a s")
  obtain bs s2 where bs: "instantiate cls xs s1 = (bs, s2)" by (cases "instantiate cls xs s1")
  from Cons.IH [of s1] b bs show ?case by simp
qed

lemma instantiate_lengthD:
  "instantiate cls xs s = (bs, s1) \<Longrightarrow> length bs = length xs"
  using length_instantiate [of cls xs s] by simp

lemma instantiate_nth:
  "i < length xs \<Longrightarrow> \<exists>st. fst (instantiate cls xs s) ! i = fst (cls (xs ! i) st)"
proof (induction xs arbitrary: s i)
  case Nil
  then show ?case by simp
next
  case (Cons a xs)
  obtain b s1 where b: "cls a s = (b, s1)" by (cases "cls a s")
  obtain bs s2 where bs: "instantiate cls xs s1 = (bs, s2)" by (cases "instantiate cls xs s1")
  show ?case
  proof (cases i)
    case 0
    with b bs have "fst (instantiate cls (a # xs) s) ! i = fst (cls ((a # xs) ! i) s)" by simp
    then show ?thesis by blast
  next
    case (Suc j)
    with Cons.prems have "j < length xs" by simp
    from Cons.IH [OF this, of s1] b bs Suc show ?thesis by simp
  qed
qed

lemma Unet_init_InrD:
  assumes "Unet_init ckpt nf (Some ups) (Some downs) sz stp s = (Inr net, s1)"
  shows "length downs = length ups + 1"
    and "up net = ups" and "down net = downs" and "in_features net = nf"
    and "length (path_down net) = length downs"
    and "length (path_up net) = length ups"
    and "n_params net = count_params (Unet_parameters (path_down net) (path_up net))"
proof -
  from assms show len: "length downs = length ups + 1"
    by (auto simp: Unet_init_def split: option.splits if_splits)
  from assms len obtain D U pd sa pu where
    pd: "instantiate D (down_block_args nf downs sz (other_keys stp)) s = (pd, sa)" and
    pu: "instantiate U (up_block_args nf downs (last downs) ups sz (other_keys stp)) sa = (pu, s1)" and
    net: "net = \<lparr>up = ups, down = downs, in_features = nf, path_down = pd, path_up = pu,
                 n_params = count_params (Unet_parameters pd pu)\<rparr>"
    by (auto simp: Unet_init_def Let_def split: option.splits if_splits prod.splits)
  from net show "up net = ups" "down net = downs" "in_features net = nf"
    "n_params net = count_params (Unet_parameters (path_down net) (path_up net))"
    by simp_all
  from pd net show "length (path_down net) = length downs"
    by (simp add: instantiate_lengthD length_down_block_args)
  from pu net len show "length (path_up net) = length ups"
    by (simp add: instantiate_lengthD length_up_block_args)
qed

lemma Unet_init_paths:
  assumes "Unet_init ckpt nf (Some ups) (Some downs) sz stp s0 = (Inr net, s1)"
  shows "length (path_down net) = length (path_up net) + 1"
  using Unet_init_InrD(1,5,6) [OF assms] by simp

lemma Unet_init_mismatch:
  "length downs \<noteq> length ups + 1 \<Longrightarrow>
   Unet_init ckpt nf (Some ups) (Some downs) sz stp s
     = (Inl (ValueError ''`down` must be 1 item longer than `up`''), s)"
  by (simp add: Unet_init_def)

lemma Unet_init_match_not_ValueError:
  "length downs = length ups + 1 \<Longrightarrow>
   fst (Unet_init ckpt nf (Some ups) (Some downs) sz stp s) \<noteq> Inl (ValueError msg)"
  by (auto simp: Unet_init_def Let_def split: option.splits prod.splits)

lemma Unet_init_valid:
  assumes "length downs = length ups + 1" and "down_block stp = Some D0"
    and "up_block stp = Some U0"
  shows "Unet_init ckpt nf (Some ups) (Some downs) sz stp s =
    (case instantiate (if checkpointed_key stp = Some True then checkpointed ckpt D0 else D0)
            (down_block_args nf downs sz (other_keys stp)) s of
       (pd, sa) \<Rightarrow>
     (case instantiate (if checkpointed_key stp = Some True then checkpointed ckpt U0 else U0)
            (up_block_args nf downs (last downs) ups sz (other_keys stp)) sa of
       (pu, sb) \<Rightarrow>
     (Inr \<lparr>up = ups, down = downs, in_features = nf, path_down = pd, path_up = pu,
           n_params = count_params (Unet_parameters pd pu)\<rparr>, sb)))"
proof -
  from assms(1) have "downs \<noteq> []" by auto
  with assms show ?thesis by (simp add: Unet_init_def Let_def)
qed

lemma fold_numel: "fold (\<lambda>p n. n + numel p) ps a = a + sum_list (map numel ps)"
  by (induction ps arbitrary: a) simp_all

lemma count_params_sum: "count_params ps = sum_list (map numel ps)"
  by (simp add: count_params_def fold_numel)

lemma dedup_params_idents:
  "set (map ident (dedup_params ps memo)) = set (map ident ps) - set memo"
  by (induction ps memo rule: dedup_params.induct) auto

lemma dedup_params_distinct: "distinct (map ident (dedup_params ps memo))"
proof (induction ps memo rule: dedup_params.induct)
  case (1 memo)
  show ?case by simp
next
  case (2 p ps memo)
  have "ident p \<notin> set (map ident (dedup_params ps (ident p # memo)))"
    unfolding dedup_params_idents by simp
  with 2 show ?case by simp
qed

section \<open>Facts about the forward pass\<close>

lemma length_encoder_loop:
  "length (fst (encoder_loop ls fs s)) = length fs + length ls"
  by (induction ls arbitrary: fs s) (auto split: prod.splits)

lemma encoder_loop_prefix:
  "j < length fs \<Longrightarrow> fst (encoder_loop ls fs s) ! j = fs ! j"
  by (induction ls arbitrary: fs s) (auto split: prod.splits simp: nth_append)

lemma encoder_loop_stage:
  "fs \<noteq> [] \<Longrightarrow> k < length ls \<Longrightarrow>
   \<exists>st. fst (encoder_loop ls fs s) ! (length fs + k)
        = fst (forward (ls ! k) [Tensor (fst (encoder_loop ls fs s) ! (length fs + k - 1))] [] st)"
proof (induction ls arbitrary: fs s k)
  case Nil
  then show ?case by simp
next
  case (Cons l ls)
  obtain y s1 where y: "forward l [Tensor (last fs)] [] s = (y, s1)"
    by (cases "forward l [Tensor (last fs)] [] s")
  have res: "fst (encoder_loop (l # ls) fs s) = fst (encoder_loop ls (fs @ [y]) s1)"
    using y by simp
  show ?case
  proof (cases k)
    case 0
    have a: "fst (encoder_loop ls (fs @ [y]) s1) ! length fs = y"
      using encoder_loop_prefix [of "length fs" "fs @ [y]" ls s1] by simp
    have b: "fst (encoder_loop ls (fs @ [y]) s1) ! (length fs - 1) = last fs"
      using encoder_loop_prefix [of "length fs - 1" "fs @ [y]" ls s1] Cons.prems(1)
      by (simp add: nth_append last_conv_nth)
    show ?thesis
      unfolding res using 0 a b y by (auto intro!: exI [of _ s] simp: fst_def)
  next
    case (Suc k')
    then have k': "k' < length ls" using Cons.prems by simp
    from Cons.IH [of "fs @ [y]" k' s1, OF _ k']
    show ?thesis unfolding res using Suc by simp
  qed
qed

lemma Unet_forward_mismatch:
  "int (tensor_size inp 1) \<noteq> in_features self \<Longrightarrow>
   Unet_forward self inp s =
     (Inl (ValueError (''Expected '' @ str_int (in_features self)
            @ '' feature channels in input, got '' @ str_int (int (tensor_size inp 1)))), s)"
  by (simp add: Unet_forward_def)

lemma Unet_forward_match:
  "int (tensor_size inp 1) = in_features self \<Longrightarrow>
   Unet_forward self inp s =
     (case encoder_loop (path_down self) [inp] s of
        (features, s1) \<Rightarrow>
          (case decoder_loop (zip (path_up self) (slice_m2_rev features)) (last features) s1 of
             (f_bot1, s2) \<Rightarrow> (Inr f_bot1, s2)))"
  by (simp add: Unet_forward_def Let_def)

lemma Unet_forward_features:
  "int (tensor_size inp 1) = in_features self \<Longrightarrow>
   Unet_forward self inp s =
     (case decoder_loop (zip (path_up self) (features_horizontal self inp s))
             (last (forward_features self inp s))
             (snd (encoder_loop (path_down self) [inp] s)) of
        (f_bot1, s2) \<Rightarrow> (Inr f_bot1, s2))"
  by (simp add: Unet_forward_match features_horizontal_def forward_features_def
      split: prod.splits)

lemma length_forward_features:
  "length (forward_features self inp s) = length (path_down self) + 1"
  by (simp add: forward_features_def length_encoder_loop)

lemma forward_features_0: "forward_features self inp s ! 0 = inp"
  using encoder_loop_prefix [of 0 "[inp]" "path_down self" s]
  by (simp add: forward_features_def)

lemma forward_features_stage:
  assumes "k < length (path_down self)"
  shows "\<exists>st. forward_features self inp s ! (k + 1)
      = fst (forward (path_down self ! k) [Tensor (forward_features self inp s ! k)] [] st)"
  using encoder_loop_stage [of "[inp]" k "path_down self" s] assms
  by (simp add: forward_features_def)

lemma forward_features_last:
  assumes "path_down self \<noteq> []"
  shows "\<exists>x st. last (forward_features self inp s)
      = fst (forward (last (path_down self)) [Tensor x] [] st)"
proof -
  let ?n = "length (path_down self)"
  have k: "?n - 1 < ?n" using assms by simp
  from forward_features_stage [OF k, of inp s] obtain st where
    "forward_features self inp s ! (?n - 1 + 1)
      = fst (forward (path_down self ! (?n - 1))
               [Tensor (forward_features self inp s ! (?n - 1))] [] st)"
    by blast
  moreover have "last (forward_features self inp s) = forward_features self inp s ! (?n - 1 + 1)"
    using length_forward_features [of self inp s] assms
    by (simp add: last_conv_nth flip: length_greater_0_conv)
  moreover have "path_down self ! (?n - 1) = last (path_down self)"
    using assms by (simp add: last_conv_nth)
  ultimately show ?thesis by metis
qed

lemma length_features_horizontal:
  "length (features_horizontal self inp s) = length (path_down self)"
  by (simp add: features_horizontal_def slice_m2_rev_eq length_forward_features)

lemma features_horizontal_nth:
  assumes "i < length (path_down self)"
  shows "features_horizontal self inp s ! i
      = forward_features self inp s ! (length (path_down self) - 1 - i)"
proof -
  let ?fs = "forward_features self inp s"
  have n: "length ?fs = length (path_down self) + 1" by (rule length_forward_features)
  have "rev (butlast ?fs) ! i = butlast ?fs ! (length (butlast ?fs) - Suc i)"
    using assms n by (simp add: rev_nth)
  also have "\<dots> = ?fs ! (length (path_down self) - 1 - i)"
    using assms n by (simp add: nth_butlast)
  finally show ?thesis by (simp add: features_horizontal_def slice_m2_rev_eq)
qed

lemma features_horizontal_last:
  assumes "path_down self \<noteq> []"
  shows "features_horizontal self inp s ! (length (path_down self) - 1) = inp"
  using features_horizontal_nth [of "length (path_down self) - 1" self inp s] assms
  by (simp add: forward_features_0)

lemma skip_pairs_nth:
  assumes "length (path_down self) = length (path_up self) + 1" and "i < length (path_up self)"
  shows "zip (path_up self) (features_horizontal self inp s) ! i
      = (path_up self ! i, forward_features self inp s ! (length (path_down self) - 2 - i + 1))"
proof -
  have "features_horizontal self inp s ! i
      = forward_features self inp s ! (length (path_down self) - 1 - i)"
    using assms by (intro features_horizontal_nth) simp
  moreover have "length (path_down self) - 1 - i = length (path_down self) - 2 - i + 1"
    using assms by simp
  ultimately show ?thesis
    using assms by (simp add: length_features_horizontal)
qed

lemma skip_pairs_snd:
  assumes "length (path_down self) = length (path_up self) + 1"
  shows "map snd (zip (path_up self) (features_horizontal self inp s))
      = rev (butlast (tl (forward_features self inp s)))"
proof -
  let ?fs = "forward_features self inp s"
  let ?h = "features_horizontal self inp s"
  have n: "length ?fs = length (path_down self) + 1" by (rule length_forward_features)
  have "map snd (zip (path_up self) ?h) = take (length (path_up self)) ?h"
    by (simp add: map_snd_zip_take length_features_horizontal assms)
  also have "\<dots> = take (length ?fs - 2) (rev (butlast ?fs))"
    using assms n by (simp add: features_horizontal_def slice_m2_rev_eq)
  also have "\<dots> = rev (drop 1 (butlast ?fs))"
    using n assms by (simp add: take_rev)
  also have "drop 1 (butlast ?fs) = butlast (tl ?fs)"
    by (simp add: drop_Suc butlast_tl)
  finally show ?thesis .
qed

lemma skip_pairs_butlast:
  assumes "length (path_down self) = length (path_up self) + 1"
  shows "map snd (zip (path_up self) (features_horizontal self inp s))
      = butlast (features_horizontal self inp s)"
  using assms
  by (simp add: map_snd_zip_take length_features_horizontal butlast_conv_take)

lemma fst_last_zip:
  assumes "xs \<noteq> []" and "length xs \<le> length ys"
  shows "fst (last (zip xs ys)) = last xs"
proof -
  have ne: "zip xs ys \<noteq> []" using assms by (cases xs; cases ys) auto
  have "length (zip xs ys) = length xs" using assms by simp
  then have "last (zip xs ys) = zip xs ys ! (length xs - 1)"
    using ne by (simp add: last_conv_nth)
  also have "\<dots> = (xs ! (length xs - 1), ys ! (length xs - 1))"
  proof (rule nth_zip)
    from assms(1) show "length xs - 1 < length xs" by (cases xs) simp_all
    with assms(2) show "length xs - 1 < length ys" by simp
  qed
  finally show ?thesis using assms by (simp add: last_conv_nth)
qed

lemma decoder_loop_append:
  "decoder_loop (ps @ qs) b s =
     (case decoder_loop ps b s of (b1, s1) \<Rightarrow> decoder_loop qs b1 s1)"
proof (induction ps arbitrary: b s)
  case Nil
  show ?case by simp
next
  case (Cons p ps)
  obtain l h where p: "p = (l, h)" by (cases p)
  obtain y t where y: "forward l [Tensor b, Tensor h] [] s = (y, t)"
    by (cases "forward l [Tensor b, Tensor h] [] s")
  from Cons.IH [of y t] p y show ?case by simp
qed

lemma decoder_loop_single:
  "decoder_loop [(l, h)] b s = forward l [Tensor b, Tensor h] [] s"
  by (simp split: prod.splits)

lemma decoder_loop_stage:
  assumes "i < length ps"
  shows "decoder_loop (take (i + 1) ps) b s =
     (case decoder_loop (take i ps) b s of
        (b1, s1) \<Rightarrow> forward (fst (ps ! i)) [Tensor b1, Tensor (snd (ps ! i))] [] s1)"
proof -
  obtain l h where p: "ps ! i = (l, h)" by (cases "ps ! i")
  have "take (i + 1) ps = take i ps @ [(l, h)]"
    using assms p by (simp add: take_Suc_conv_app_nth)
  then show ?thesis
    using p by (simp add: decoder_loop_append decoder_loop_single del: decoder_loop.simps)
qed

lemma decoder_loop_last:
  "ps \<noteq> [] \<Longrightarrow>
   \<exists>b st. fst (decoder_loop ps b0 s)
      = fst (forward (fst (last ps)) [Tensor b, Tensor (snd (last ps))] [] st)"
proof (induction ps arbitrary: b0 s)
  case Nil
  then show ?case by simp
next
  case (Cons p ps)
  obtain l h where p: "p = (l, h)" by (cases p)
  obtain y t where y: "forward l [Tensor b0, Tensor h] [] s = (y, t)"
    by (cases "forward l [Tensor b0, Tensor h] [] s")
  show ?case
  proof (cases "ps = []")
    case True
    with p y have "fst (decoder_loop (p # ps) b0 s)
        = fst (forward (fst (last (p # ps))) [Tensor b0, Tensor (snd (last (p # ps)))] [] s)"
      by simp
    then show ?thesis by blast
  next
    case False
    from Cons.IH [OF False, of y t] False p y show ?thesis by simp
  qed
qed

lemma encoder_loop_state_indep:
  assumes "\<forall>m \<in> set ls. \<forall>args kw st st1. fst (forward m args kw st) = fst (forward m args kw st1)"
  shows "fst (encoder_loop ls fs s) = fst (encoder_loop ls fs s1)"
  using assms
proof (induction ls arbitrary: fs s s1)
  case Nil
  show ?case by simp
next
  case (Cons l ls)
  obtain y t where y: "forward l [Tensor (last fs)] [] s = (y, t)"
    by (cases "forward l [Tensor (last fs)] [] s")
  obtain y1 t1 where y1: "forward l [Tensor (last fs)] [] s1 = (y1, t1)"
    by (cases "forward l [Tensor (last fs)] [] s1")
  from Cons.prems have "fst (forward l [Tensor (last fs)] [] s) = fst (forward l [Tensor (last fs)] [] s1)"
    by simp
  with y y1 have "y1 = y" by simp
  moreover from Cons.prems have "fst (encoder_loop ls (fs @ [y]) t) = fst (encoder_loop ls (fs @ [y]) t1)"
    by (intro Cons.IH) simp
  ultimately show ?case using y y1 by simp
qed

lemma decoder_loop_state_indep:
  assumes "\<forall>m \<in> fst ` set ps. \<forall>args kw st st1. fst (forward m args kw st) = fst (forward m args kw st1)"
  shows "fst (decoder_loop ps b s) = fst (decoder_loop ps b s1)"
  using assms
proof (induction ps arbitrary: b s s1)
  case Nil
  show ?case by simp
next
  case (Cons p ps)
  obtain l h where p: "p = (l, h)" by (cases p)
  obtain y t where y: "forward l [Tensor b, Tensor h] [] s = (y, t)"
    by (cases "forward l [Tensor b, Tensor h] [] s")
  obtain y1 t1 where y1: "forward l [Tensor b, Tensor h] [] s1 = (y1, t1)"
    by (cases "forward l [Tensor b, Tensor h] [] s1")
  from Cons.prems p have "fst (forward l [Tensor b, Tensor h] [] s) = fst (forward l [Tensor b, Tensor h] [] s1)"
    by simp
  with y y1 have "y1 = y" by simp
  moreover from Cons.prems have "fst (decoder_loop ps y t) = fst (decoder_loop ps y t1)"
    by (intro Cons.IH) simp
  ultimately show ?case using p y y1 by simp
qed



section \<open>Facts about the probe networks\<close>

lemma probe_down_args:
  "down_block_args 1 [16, 32, 64] 5 () =
    [\<lparr>d_out = 16, size_kw = 5, name_kw = ''down_0'', setup_kw = (), d_in = 1, is_first = True\<rparr>,
     \<lparr>d_out = 32, size_kw = 5, name_kw = ''down_1'', setup_kw = (), d_in = 16, is_first = False\<rparr>,
     \<lparr>d_out = 64, size_kw = 5, name_kw = ''down_2'', setup_kw = (), d_in = 32, is_first = False\<rparr>]"
  by (simp add: down_block_args_def enumerate_eq_zip upt_rec str_nat.simps)

lemma probe_hor_dims: "hor_dims 1 [16, 32, 64] = [32, 16, 1]"
  by (simp add: hor_dims_def slice_m2_rev_eq)

lemma probe_up_args:
  "up_block_args 1 [16, 32, 64] 64 [32, 16] 5 () =
    [\<lparr>d_out = 32, size_kw = 5, name_kw = ''up_0'', setup_kw = (), d_bot = 64, d_hor = 32\<rparr>,
     \<lparr>d_out = 16, size_kw = 5, name_kw = ''up_1'', setup_kw = (), d_bot = 32, d_hor = 16\<rparr>]"
  by (simp add: up_block_args_def probe_hor_dims enumerate_eq_zip upt_rec str_nat.simps)

lemma probe_init:
  "Unet_init (\<lambda>f. f) 1 (Some [32, 16]) (Some [16, 32, 64]) 5 probe_setup 0 = (Inr probe_net, 5)"
  by (simp add: Unet_init_def probe_setup_def probe_down_args probe_up_args ProbeDown_def
      ProbeUp_def probe_net_def Unet_parameters_def count_params_def)

lemma frozen_init:
  "Unet_init (\<lambda>f. f) 1 (Some []) (Some [4]) 5 frozen_setup 0 = (Inr frozen_net, 1)"
  by (simp add: Unet_init_def frozen_setup_def down_block_args_def up_block_args_def
      hor_dims_def slice_m2_rev_eq enumerate_eq_zip FrozenDown_def frozen_net_def
      Unet_parameters_def count_params_def str_nat.simps)

lemma probe_features:
  "forward_features probe_net (probe_input 1) 5 =
    [probe_input 1,
     \<lparr>batch = 1, channels = 16, height = 1, width = 1, requires_grad = False, content = ''down_0''\<rparr>,
     \<lparr>batch = 1, channels = 32, height = 1, width = 1, requires_grad = False, content = ''down_1''\<rparr>,
     \<lparr>batch = 1, channels = 64, height = 1, width = 1, requires_grad = False, content = ''down_2''\<rparr>]"
  by (simp add: forward_features_def probe_net_def probe_down_forward_def)

lemma probe_forward_run:
  "Unet_forward probe_net (probe_input 1) 5 =
    (Inr \<lparr>batch = 1, channels = 16, height = 1, width = 1, requires_grad = False,
          content = ''up_1(up_0(down_2,down_1),down_0)''\<rparr>, 10)"
  by (simp add: Unet_forward_def probe_net_def probe_input_def tensor_size_def
      slice_m2_rev_eq probe_down_forward_def)

lemma probe_up_forward_channels:
  "channels (fst (probe_up_forward nm c args kw n)) = nat c"
  by (induction nm c args kw n rule: probe_up_forward.induct) simp_all

lemma probe_up_forward_state_indep:
  "fst (probe_up_forward nm c args kw n) = fst (probe_up_forward nm c args kw n1)"
  by (induction nm c args kw n rule: probe_up_forward.induct) simp_all

section \<open>Claims about the skip connections\<close>

text \<open>
  C1. For every network that the constructor returns (so \<^verbatim>\<open>len(down) == len(up) + 1\<close>,
  with \<open>D\<close> for \<^verbatim>\<open>len(down)\<close>), in every call of \<^verbatim>\<open>forward\<close>: \<^verbatim>\<open>features\<close> is the input
  followed by the \<open>D\<close> encoder outputs, entry \<open>k + 1\<close> being what encoder stage \<open>k\<close>
  returned on entry \<open>k\<close>; the loop of lines 104 and 105 runs over \<open>D - 1\<close> pairs, the
  \<open>i\<close>-th pairing decoder stage \<open>i\<close> with the output of encoder stage \<open>D - 2 - i\<close>,
  and its \<open>i\<close>-th iteration calls decoder stage \<open>i\<close> on the running \<^verbatim>\<open>f_bot\<close> and
  that output; \<^verbatim>\<open>f_bot\<close> starts as the output of the deepest encoder stage \<open>D - 1\<close>;
  and the skips taken together are the encoder outputs without the deepest, deep to
  shallow, so that neither the raw input nor the deepest output is among them.
\<close>

theorem skip_wiring:
  assumes "Unet_init ckpt nf (Some ups) (Some downs) sz stp s0 = (Inr net, s1)"
  shows "length (forward_features net inp s) = length downs + 1
    \<and> forward_features net inp s ! 0 = inp
    \<and> (\<forall>k<length downs. \<exists>st. forward_features net inp s ! (k + 1)
          = fst (forward (path_down net ! k) [Tensor (forward_features net inp s ! k)] [] st))
    \<and> length (zip (path_up net) (features_horizontal net inp s)) = length downs - 1
    \<and> (\<forall>i<length downs - 1. zip (path_up net) (features_horizontal net inp s) ! i
          = (path_up net ! i, forward_features net inp s ! (length downs - 2 - i + 1)))
    \<and> (\<forall>i<length downs - 1.
          decoder_loop (take (i + 1) (zip (path_up net) (features_horizontal net inp s))) b t =
            (case decoder_loop (take i (zip (path_up net) (features_horizontal net inp s))) b t of
               (b1, t1) \<Rightarrow>
                 forward (path_up net ! i)
                   [Tensor b1, Tensor (forward_features net inp s ! (length downs - 2 - i + 1))]
                   [] t1))
    \<and> last (forward_features net inp s) = forward_features net inp s ! (length downs - 1 + 1)
    \<and> map snd (zip (path_up net) (features_horizontal net inp s))
          = rev (butlast (tl (forward_features net inp s)))
    \<and> (int (tensor_size inp 1) = in_features net \<longrightarrow>
         Unet_forward net inp s =
           (case decoder_loop (zip (path_up net) (features_horizontal net inp s))
                   (last (forward_features net inp s))
                   (snd (encoder_loop (path_down net) [inp] s)) of
              (f_bot1, s2) \<Rightarrow> (Inr f_bot1, s2)))"
proof -
  note len = Unet_init_InrD(1,5,6) [OF assms]
  note paths = Unet_init_paths [OF assms]
  let ?pairs = "zip (path_up net) (features_horizontal net inp s)"
  have a: "length (forward_features net inp s) = length downs + 1"
    using len by (simp add: length_forward_features)
  have b: "\<forall>k<length downs. \<exists>st. forward_features net inp s ! (k + 1)
          = fst (forward (path_down net ! k) [Tensor (forward_features net inp s ! k)] [] st)"
    using forward_features_stage [of _ net inp s] len by simp
  have c: "length ?pairs = length downs - 1"
    using len by (simp add: length_features_horizontal)
  have d: "\<forall>i<length downs - 1. ?pairs ! i
          = (path_up net ! i, forward_features net inp s ! (length downs - 2 - i + 1))"
    using skip_pairs_nth [OF paths, of _ inp s] len by simp
  have f: "\<forall>i<length downs - 1.
          decoder_loop (take (i + 1) ?pairs) b t =
            (case decoder_loop (take i ?pairs) b t of
               (b1, t1) \<Rightarrow>
                 forward (path_up net ! i)
                   [Tensor b1, Tensor (forward_features net inp s ! (length downs - 2 - i + 1))]
                   [] t1)"
  proof (intro allI impI)
    fix i assume i: "i < length downs - 1"
    with c have "i < length ?pairs" by simp
    from decoder_loop_stage [OF this, of b t] d i
    show "decoder_loop (take (i + 1) ?pairs) b t =
            (case decoder_loop (take i ?pairs) b t of
               (b1, t1) \<Rightarrow>
                 forward (path_up net ! i)
                   [Tensor b1, Tensor (forward_features net inp s ! (length downs - 2 - i + 1))]
                   [] t1)"
      by simp
  qed
  have "forward_features net inp s \<noteq> []" using a by auto
  then have e: "last (forward_features net inp s)
      = forward_features net inp s ! (length downs - 1 + 1)"
    using a len by (simp add: last_conv_nth)
  note g = forward_features_0 [of net inp s]
  note h = skip_pairs_snd [OF paths, of inp s]
  have k: "int (tensor_size inp 1) = in_features net \<longrightarrow>
         Unet_forward net inp s =
           (case decoder_loop ?pairs (last (forward_features net inp s))
                   (snd (encoder_loop (path_down net) [inp] s)) of
              (f_bot1, s2) \<Rightarrow> (Inr f_bot1, s2))"
    using Unet_forward_features [of inp net s] by blast
  from a g b c d f e h k show ?thesis by (intro conjI)
qed

theorem skip_wiring_witness:
  "Unet_init (\<lambda>f. f) 1 (Some [32, 16]) (Some [16, 32, 64]) 5 probe_setup 0 = (Inr probe_net, 5)
   \<and> length (zip (path_up probe_net) (features_horizontal probe_net (probe_input 1) 5)) = 2
   \<and> map (content \<circ> snd) (zip (path_up probe_net) (features_horizontal probe_net (probe_input 1) 5))
       = [''down_1'', ''down_0'']
   \<and> content (last (forward_features probe_net (probe_input 1) 5)) = ''down_2''
   \<and> Unet_forward probe_net (probe_input 1) 5 =
       (Inr \<lparr>batch = 1, channels = 16, height = 1, width = 1, requires_grad = False,
             content = ''up_1(up_0(down_2,down_1),down_0)''\<rparr>, 10)"
proof -
  note t = skip_wiring [OF probe_init, of "probe_input 1" 5 "probe_input 1" 5]
  from t have "length (zip (path_up probe_net) (features_horizontal probe_net (probe_input 1) 5)) = 2"
    by simp
  moreover from t have "map snd (zip (path_up probe_net) (features_horizontal probe_net (probe_input 1) 5))
       = rev (butlast (tl (forward_features probe_net (probe_input 1) 5)))"
    by blast
  then have "map (content \<circ> snd) (zip (path_up probe_net) (features_horizontal probe_net (probe_input 1) 5))
       = [''down_1'', ''down_0'']"
    unfolding map_map [symmetric] probe_features by simp
  moreover from t have "last (forward_features probe_net (probe_input 1) 5)
       = forward_features probe_net (probe_input 1) 5 ! (length [16, 32, 64 :: int] - 1 + 1)"
    by blast
  then have "content (last (forward_features probe_net (probe_input 1) 5)) = ''down_2''"
    unfolding probe_features by simp
  ultimately show ?thesis using probe_init probe_forward_run by simp
qed

text \<open>
  C2, as stated, fails: the slice \<^verbatim>\<open>features[-2::-1]\<close> has \<open>D\<close> entries, not
  \<open>D - 1\<close>, and its last entry is the raw input; likewise \<^verbatim>\<open>hor_dims\<close> has \<open>D\<close>
  entries and ends with \<^verbatim>\<open>in_features\<close>. Here \<open>D = 3\<close>.
\<close>

theorem skip_slice_includes_input:
  "Unet_init (\<lambda>f. f) 1 (Some [32, 16]) (Some [16, 32, 64]) 5 probe_setup 0 = (Inr probe_net, 5)
   \<and> length (features_horizontal probe_net (probe_input 1) 5) \<noteq> length [16, 32, 64 :: int] - 1
   \<and> features_horizontal probe_net (probe_input 1) 5 ! 2 = probe_input 1
   \<and> length (hor_dims 1 [16, 32, 64]) \<noteq> length [16, 32, 64 :: int] - 1
   \<and> hor_dims 1 [16, 32, 64] ! 2 = 1"
  unfolding features_horizontal_def probe_features
  by (simp add: probe_init probe_hor_dims slice_m2_rev_eq)

text \<open>
  C2, amended. For every network that the constructor returns, the slice
  \<^verbatim>\<open>features[-2::-1]\<close> has \<open>D\<close> entries: entry \<open>i\<close>, for \<open>i < D - 1\<close>, is the output
  of encoder stage \<open>D - 2 - i\<close>, and the last entry is the raw input. The \<^verbatim>\<open>zip\<close> with
  the \<open>D - 1\<close> decoder stages drops that last entry. In the same way \<^verbatim>\<open>hor_dims\<close> has
  \<open>D\<close> entries, \<^verbatim>\<open>down[D - 2 - i]\<close> at index \<open>i < D - 1\<close> and \<^verbatim>\<open>in_features\<close> last,
  and the \<^verbatim>\<open>zip\<close> of line 79 hands decoder stage \<open>i\<close> the width \<^verbatim>\<open>down[D - 2 - i]\<close>.
\<close>

theorem skip_slice_shape:
  assumes "Unet_init ckpt nf (Some ups) (Some downs) sz stp s0 = (Inr net, s1)"
  shows "length (features_horizontal net inp s) = length downs
    \<and> (\<forall>k<length downs. \<exists>st. forward_features net inp s ! (k + 1)
          = fst (forward (path_down net ! k) [Tensor (forward_features net inp s ! k)] [] st))
    \<and> (\<forall>i<length downs - 1. features_horizontal net inp s ! i
          = forward_features net inp s ! (length downs - 2 - i + 1))
    \<and> features_horizontal net inp s ! (length downs - 1) = inp
    \<and> map snd (zip (path_up net) (features_horizontal net inp s))
          = butlast (features_horizontal net inp s)
    \<and> length (hor_dims nf downs) = length downs
    \<and> (\<forall>i<length downs - 1. hor_dims nf downs ! i = downs ! (length downs - 2 - i))
    \<and> hor_dims nf downs ! (length downs - 1) = nf
    \<and> (\<forall>i<length ups.
          d_hor (up_block_args nf downs (last downs) ups sz (other_keys stp) ! i)
            = downs ! (length downs - 2 - i))"
proof -
  note len = Unet_init_InrD(1,5,6) [OF assms]
  note paths = Unet_init_paths [OF assms]
  from len have ne: "downs \<noteq> []" "path_down net \<noteq> []" by auto
  have a: "length (features_horizontal net inp s) = length downs"
    using len by (simp add: length_features_horizontal)
  have b: "\<forall>k<length downs. \<exists>st. forward_features net inp s ! (k + 1)
          = fst (forward (path_down net ! k) [Tensor (forward_features net inp s ! k)] [] st)"
    using forward_features_stage [of _ net inp s] len by simp
  have c: "\<forall>i<length downs - 1. features_horizontal net inp s ! i
          = forward_features net inp s ! (length downs - 2 - i + 1)"
  proof (intro allI impI)
    fix i assume i: "i < length downs - 1"
    then have "length downs - 1 - i = length downs - 2 - i + 1" by simp
    with features_horizontal_nth [of i net inp s] i len
    show "features_horizontal net inp s ! i
          = forward_features net inp s ! (length downs - 2 - i + 1)"
      by simp
  qed
  have d: "features_horizontal net inp s ! (length downs - 1) = inp"
    using features_horizontal_last [OF ne(2), of inp s] len by simp
  have e: "\<forall>i<length ups.
          d_hor (up_block_args nf downs (last downs) ups sz (other_keys stp) ! i)
            = downs ! (length downs - 2 - i)"
    using len(1) by (simp add: up_block_args_nth hor_dims_nth)
  show ?thesis
    using a b c d e skip_pairs_butlast [OF paths, of inp s] length_hor_dims [of nf downs]
      hor_dims_nth [of _ downs nf] hor_dims_last [OF ne(1), of nf]
    by blast
qed

theorem skip_slice_shape_witness:
  "Unet_init (\<lambda>f. f) 1 (Some [32, 16]) (Some [16, 32, 64]) 5 probe_setup 0 = (Inr probe_net, 5)
   \<and> length (features_horizontal probe_net (probe_input 1) 5) = 3
   \<and> features_horizontal probe_net (probe_input 1) 5 ! 2 = probe_input 1
   \<and> map snd (zip (path_up probe_net) (features_horizontal probe_net (probe_input 1) 5))
       = butlast (features_horizontal probe_net (probe_input 1) 5)
   \<and> length (hor_dims 1 [16, 32, 64]) = 3
   \<and> hor_dims 1 [16, 32, 64] ! 2 = 1"
  using skip_slice_shape [OF probe_init, of "probe_input 1" 5] probe_init
  by (simp add: numeral_2_eq_2)

section \<open>Claims about construction\<close>

text \<open>
  C3. With both schedules supplied as lists, construction raises the \<^verbatim>\<open>ValueError\<close> of
  line 55 if and only if \<^verbatim>\<open>len(down) != len(up) + 1\<close>. When it does, the state comes
  back unchanged whatever the block classes are: no block constructor has run.
\<close>

theorem config_error_iff:
  "((\<exists>msg. fst (Unet_init ckpt nf (Some ups) (Some downs) sz stp s) = Inl (ValueError msg))
      \<longleftrightarrow> length downs \<noteq> length ups + 1)
   \<and> (length downs \<noteq> length ups + 1 \<longrightarrow>
        Unet_init ckpt nf (Some ups) (Some downs) sz stp s
          = (Inl (ValueError ''`down` must be 1 item longer than `up`''), s))"
  using Unet_init_mismatch [of downs ups ckpt nf sz stp s]
    Unet_init_match_not_ValueError [of downs ups ckpt nf sz stp s]
  by (cases "length downs = length ups + 1") auto

theorem config_error_iff_witness:
  "length [16, 32, 64 :: int] \<noteq> length [32 :: int] + 1
   \<and> Unet_init (\<lambda>f. f) 1 (Some [32]) (Some [16, 32, 64]) 5 probe_setup 0
       = (Inl (ValueError ''`down` must be 1 item longer than `up`''), 0)"
  using config_error_iff [of "\<lambda>f. f" 1 "[32]" "[16, 32, 64]" 5 probe_setup 0]
  by simp

text \<open>
  C4. For schedules with \<^verbatim>\<open>len(down) == len(up) + 1\<close>, a positive \<^verbatim>\<open>in_features\<close> and
  a configuration that holds both block classes, construction succeeds. It builds
  \<^verbatim>\<open>len(down)\<close> encoder blocks, the \<open>i\<close>-th being what the down class (wrapped when
  the configuration asks for it) returned for channel-in \<^verbatim>\<open>([in_features] + down)[i]\<close>,
  channel-out \<^verbatim>\<open>down[i]\<close>, the name \<^verbatim>\<open>down_i\<close> and \<^verbatim>\<open>is_first\<close> exactly for \<open>i = 0\<close>,
  and \<^verbatim>\<open>len(up)\<close> decoder blocks, the \<open>i\<close>-th being what the up class returned for
  \<^verbatim>\<open>([down[-1]] + up)[i]\<close>, \<^verbatim>\<open>down[D - 2 - i]\<close> and \<^verbatim>\<open>up[i]\<close>, although \<^verbatim>\<open>hor_dims\<close> has
  \<^verbatim>\<open>len(down)\<close> entries.
\<close>

theorem construction_succeeds:
  assumes "length downs = length ups + 1" and "0 < nf"
    and "down_block stp = Some D0" and "up_block stp = Some U0"
    and "DownBlock = (if checkpointed_key stp = Some True then checkpointed ckpt D0 else D0)"
    and "UpBlock = (if checkpointed_key stp = Some True then checkpointed ckpt U0 else U0)"
  shows "\<exists>net s1. Unet_init ckpt nf (Some ups) (Some downs) sz stp s = (Inr net, s1)
      \<and> length (path_down net) = length downs
      \<and> length (path_up net) = length ups
      \<and> (\<forall>i<length downs. \<exists>st. path_down net ! i =
            fst (DownBlock
                  \<lparr>d_out = downs ! i, size_kw = sz, name_kw = ''down_'' @ str_nat i,
                   setup_kw = other_keys stp, d_in = ([nf] @ downs) ! i,
                   is_first = (i = 0)\<rparr> st))
      \<and> (\<forall>i<length ups. \<exists>st. path_up net ! i =
            fst (UpBlock
                  \<lparr>d_out = ups ! i, size_kw = sz, name_kw = ''up_'' @ str_nat i,
                   setup_kw = other_keys stp, d_bot = ([last downs] @ ups) ! i,
                   d_hor = downs ! (length downs - 2 - i)\<rparr> st))
      \<and> length (hor_dims nf downs) = length downs"
proof -
  let ?dargs = "down_block_args nf downs sz (other_keys stp)"
  let ?uargs = "up_block_args nf downs (last downs) ups sz (other_keys stp)"
  obtain pd sa where pd: "instantiate DownBlock ?dargs s = (pd, sa)"
    by (cases "instantiate DownBlock ?dargs s")
  obtain pu sb where pu: "instantiate UpBlock ?uargs sa = (pu, sb)"
    by (cases "instantiate UpBlock ?uargs sa")
  let ?net = "\<lparr>up = ups, down = downs, in_features = nf, path_down = pd, path_up = pu,
               n_params = count_params (Unet_parameters pd pu)\<rparr>"
  have init: "Unet_init ckpt nf (Some ups) (Some downs) sz stp s = (Inr ?net, sb)"
    using Unet_init_valid [OF assms(1,3,4), of ckpt nf sz s] pd pu assms(5,6) by simp
  have ld: "length (path_down ?net) = length downs"
    using pd by (simp add: instantiate_lengthD length_down_block_args)
  have lu: "length (path_up ?net) = length ups"
    using pu assms(1) by (simp add: instantiate_lengthD length_up_block_args)
  have d: "\<forall>i<length downs. \<exists>st. path_down ?net ! i =
            fst (DownBlock
                  \<lparr>d_out = downs ! i, size_kw = sz, name_kw = ''down_'' @ str_nat i,
                   setup_kw = other_keys stp, d_in = ([nf] @ downs) ! i,
                   is_first = (i = 0)\<rparr> st)"
  proof (intro allI impI)
    fix i assume i: "i < length downs"
    then have "i < length ?dargs" by (simp add: length_down_block_args)
    from instantiate_nth [OF this, of DownBlock s] pd
    show "\<exists>st. path_down ?net ! i =
            fst (DownBlock
                  \<lparr>d_out = downs ! i, size_kw = sz, name_kw = ''down_'' @ str_nat i,
                   setup_kw = other_keys stp, d_in = ([nf] @ downs) ! i,
                   is_first = (i = 0)\<rparr> st)"
      by (simp add: down_block_args_nth [OF i])
  qed
  have u: "\<forall>i<length ups. \<exists>st. path_up ?net ! i =
            fst (UpBlock
                  \<lparr>d_out = ups ! i, size_kw = sz, name_kw = ''up_'' @ str_nat i,
                   setup_kw = other_keys stp, d_bot = ([last downs] @ ups) ! i,
                   d_hor = downs ! (length downs - 2 - i)\<rparr> st)"
  proof (intro allI impI)
    fix i assume i: "i < length ups"
    then have "i < length ?uargs" using assms(1) by (simp add: length_up_block_args)
    moreover have "hor_dims nf downs ! i = downs ! (length downs - 2 - i)"
      using i assms(1) by (intro hor_dims_nth) simp
    ultimately show "\<exists>st. path_up ?net ! i =
            fst (UpBlock
                  \<lparr>d_out = ups ! i, size_kw = sz, name_kw = ''up_'' @ str_nat i,
                   setup_kw = other_keys stp, d_bot = ([last downs] @ ups) ! i,
                   d_hor = downs ! (length downs - 2 - i)\<rparr> st)"
      using instantiate_nth [of i ?uargs UpBlock sa] pu
      by (simp add: up_block_args_nth [OF assms(1) i])
  qed
  show ?thesis
    using init ld lu d u length_hor_dims [of nf downs] by blast
qed

theorem construction_succeeds_witness:
  "length [16, 32, 64 :: int] = length [32, 16 :: int] + 1 \<and> (0 :: int) < 1
   \<and> down_block probe_setup = Some ProbeDown \<and> up_block probe_setup = Some ProbeUp
   \<and> checkpointed_key probe_setup \<noteq> Some True
   \<and> Unet_init (\<lambda>f. f) 1 (Some [32, 16]) (Some [16, 32, 64]) 5 probe_setup 0 = (Inr probe_net, 5)
   \<and> length (path_down probe_net) = 3 \<and> length (path_up probe_net) = 2
   \<and> (\<exists>st. path_down probe_net ! 1 =
         fst (ProbeDown \<lparr>d_out = 32, size_kw = 5, name_kw = ''down_1'', setup_kw = (),
                          d_in = 16, is_first = False\<rparr> st))
   \<and> (\<exists>st. path_up probe_net ! 0 =
         fst (ProbeUp \<lparr>d_out = 32, size_kw = 5, name_kw = ''up_0'', setup_kw = (),
                        d_bot = 64, d_hor = 32\<rparr> st))
   \<and> length (hor_dims 1 [16, 32, 64]) = 3"
proof -
  have a: "length [16, 32, 64 :: int] = length [32, 16 :: int] + 1" by simp
  have b: "(0 :: int) < 1" by simp
  have c: "down_block probe_setup = Some ProbeDown" by (simp add: probe_setup_def)
  have d: "up_block probe_setup = Some ProbeUp" by (simp add: probe_setup_def)
  have k: "checkpointed_key probe_setup \<noteq> Some True" by (simp add: probe_setup_def)
  have e: "ProbeDown = (if checkpointed_key probe_setup = Some True
      then checkpointed (\<lambda>f. f) ProbeDown else ProbeDown)" using k by simp
  have f: "ProbeUp = (if checkpointed_key probe_setup = Some True
      then checkpointed (\<lambda>f. f) ProbeUp else ProbeUp)" using k by simp
  have o: "other_keys probe_setup = ()" by simp
  have n1: "''down_'' @ str_nat 1 = ''down_1''" by (simp add: str_nat.simps)
  have n0: "''up_'' @ str_nat 0 = ''up_0''" by (simp add: str_nat.simps)
  from construction_succeeds [OF a b c d e f, of 5 0] obtain net s1 where
    init: "Unet_init (\<lambda>f. f) 1 (Some [32, 16]) (Some [16, 32, 64]) 5 probe_setup 0 = (Inr net, s1)"
    and pd: "length (path_down net) = length [16, 32, 64 :: int]"
    and pu: "length (path_up net) = length [32, 16 :: int]"
    and dargs: "\<forall>i<length [16, 32, 64 :: int]. \<exists>st. path_down net ! i =
            fst (ProbeDown
                  \<lparr>d_out = [16, 32, 64] ! i, size_kw = 5, name_kw = ''down_'' @ str_nat i,
                   setup_kw = other_keys probe_setup, d_in = ([1] @ [16, 32, 64]) ! i,
                   is_first = (i = 0)\<rparr> st)"
    and uargs: "\<forall>i<length [32, 16 :: int]. \<exists>st. path_up net ! i =
            fst (ProbeUp
                  \<lparr>d_out = [32, 16] ! i, size_kw = 5, name_kw = ''up_'' @ str_nat i,
                   setup_kw = other_keys probe_setup, d_bot = ([last [16, 32, 64]] @ [32, 16]) ! i,
                   d_hor = [16, 32, 64] ! (length [16, 32, 64 :: int] - 2 - i)\<rparr> st)"
    and hor: "length (hor_dims 1 [16, 32, 64]) = length [16, 32, 64 :: int]"
    by blast
  from init have net: "net = probe_net" by (simp add: probe_init)
  from dargs [rule_format, of 1] have "\<exists>st. path_down net ! 1 =
         fst (ProbeDown \<lparr>d_out = 32, size_kw = 5, name_kw = ''down_1'', setup_kw = (),
                          d_in = 16, is_first = False\<rparr> st)"
    unfolding o n1 by simp
  moreover from uargs [rule_format, of 0] have "\<exists>st. path_up net ! 0 =
         fst (ProbeUp \<lparr>d_out = 32, size_kw = 5, name_kw = ''up_0'', setup_kw = (),
                        d_bot = 64, d_hor = 32\<rparr> st)"
    unfolding o n0 by simp
  ultimately show ?thesis
    using a b c d k pd pu hor net probe_init by simp
qed

section \<open>Claims about the forward pass\<close>

text \<open>
  C5. When the channel count \<^verbatim>\<open>inp.size(1)\<close> differs from \<^verbatim>\<open>in_features\<close>,
  \<^verbatim>\<open>forward\<close> raises a \<^verbatim>\<open>ValueError\<close> whose message spells out both numbers, and the
  state comes back unchanged whatever the blocks are: no stage has been called. When
  the two agree, \<^verbatim>\<open>forward\<close> returns a tensor.
\<close>

theorem channel_check:
  "(int (tensor_size inp 1) \<noteq> in_features self \<longrightarrow>
      Unet_forward self inp s =
        (Inl (ValueError (''Expected '' @ str_int (in_features self)
               @ '' feature channels in input, got '' @ str_int (int (tensor_size inp 1)))), s))
   \<and> (int (tensor_size inp 1) = in_features self \<longrightarrow>
      (\<exists>out s1. Unet_forward self inp s = (Inr out, s1)))"
  by (auto simp: Unet_forward_mismatch Unet_forward_match split: prod.splits)

theorem channel_check_witness:
  "int (tensor_size (probe_input 3) 1) \<noteq> in_features probe_net
   \<and> Unet_forward probe_net (probe_input 3) 5
       = (Inl (ValueError ''Expected 1 feature channels in input, got 3''), 5)
   \<and> int (tensor_size (probe_input 1) 1) = in_features probe_net
   \<and> (\<exists>out s1. Unet_forward probe_net (probe_input 1) 5 = (Inr out, s1))"
proof -
  have a: "int (tensor_size (probe_input 3) 1) \<noteq> in_features probe_net"
    by (simp add: tensor_size_def probe_input_def probe_net_def)
  have b: "int (tensor_size (probe_input 1) 1) = in_features probe_net"
    by (simp add: tensor_size_def probe_input_def probe_net_def)
  have c: "str_int (in_features probe_net) = ''1''"
    by (simp add: probe_net_def str_int_def str_nat.simps)
  have d: "str_int (int (tensor_size (probe_input 3) 1)) = ''3''"
    by (simp add: tensor_size_def probe_input_def str_int_def str_nat.simps)
  from channel_check [of "probe_input 3" probe_net 5] a c d
  have "Unet_forward probe_net (probe_input 3) 5
       = (Inl (ValueError ''Expected 1 feature channels in input, got 3''), 5)"
    by simp
  moreover from channel_check [of "probe_input 1" probe_net 5] b
  have "\<exists>out s1. Unet_forward probe_net (probe_input 1) 5 = (Inr out, s1)"
    by blast
  ultimately show ?thesis using a b by blast
qed

text \<open>
  C6. Let every block of a constructed network return, on every call, a tensor whose
  channel count is the channel-out it was declared with (\<^verbatim>\<open>down[i]\<close> for encoder stage
  \<open>i\<close>, \<^verbatim>\<open>up[i]\<close> for decoder stage \<open>i\<close>). Then for an input with \<^verbatim>\<open>in_features\<close>
  channels \<^verbatim>\<open>forward\<close> returns a tensor with \<^verbatim>\<open>up[-1]\<close> channels, or \<^verbatim>\<open>down[-1]\<close>
  channels when \<^verbatim>\<open>up\<close> is empty.
\<close>

theorem output_channels:
  assumes init: "Unet_init ckpt nf (Some ups) (Some downs) sz stp s0 = (Inr net, s1)"
    and cd: "\<forall>i<length downs. \<forall>args kw st.
        int (tensor_size (fst (forward (path_down net ! i) args kw st)) 1) = downs ! i"
    and cu: "\<forall>i<length ups. \<forall>args kw st.
        int (tensor_size (fst (forward (path_up net ! i) args kw st)) 1) = ups ! i"
    and inp: "int (tensor_size inp 1) = nf"
  shows "\<exists>out s2. Unet_forward net inp s = (Inr out, s2)
      \<and> int (tensor_size out 1) = (if ups = [] then last downs else last ups)"
proof -
  note len = Unet_init_InrD(1,5,6) [OF init]
  note paths = Unet_init_paths [OF init]
  from len have ne: "downs \<noteq> []" "path_down net \<noteq> []" by auto
  let ?pairs = "zip (path_up net) (features_horizontal net inp s)"
  let ?bot = "last (forward_features net inp s)"
  let ?s = "snd (encoder_loop (path_down net) [inp] s)"
  obtain out s2 where dec: "decoder_loop ?pairs ?bot ?s = (out, s2)"
    by (cases "decoder_loop ?pairs ?bot ?s")
  have run: "Unet_forward net inp s = (Inr out, s2)"
    using Unet_forward_features [of inp net s] inp Unet_init_InrD(4) [OF init] dec by simp
  have "int (tensor_size out 1) = (if ups = [] then last downs else last ups)"
  proof (cases "ups = []")
    case True
    with len have "path_up net = []" by simp
    with dec have out: "out = ?bot" by simp
    from forward_features_last [OF ne(2), of inp s] obtain x st where
      "?bot = fst (forward (last (path_down net)) [Tensor x] [] st)" by blast
    moreover have "last (path_down net) = path_down net ! (length downs - 1)"
      using ne len by (simp add: last_conv_nth)
    ultimately have "int (tensor_size ?bot 1) = downs ! (length downs - 1)"
      using cd ne by simp
    with out True ne show ?thesis by (simp add: last_conv_nth)
  next
    case False
    with len have pu: "path_up net \<noteq> []" by auto
    have le: "length (path_up net) \<le> length (features_horizontal net inp s)"
      using paths by (simp add: length_features_horizontal)
    then have pne: "?pairs \<noteq> []"
      using pu by (cases "path_up net"; cases "features_horizontal net inp s") auto
    from decoder_loop_last [OF pne, of ?bot ?s] dec obtain b st where
      "out = fst (forward (fst (last ?pairs)) [Tensor b, Tensor (snd (last ?pairs))] [] st)"
      by auto
    moreover have "fst (last ?pairs) = path_up net ! (length ups - 1)"
      using fst_last_zip [OF pu le] pu len by (simp add: last_conv_nth)
    ultimately have "int (tensor_size out 1) = ups ! (length ups - 1)"
      using cu False by simp
    with False show ?thesis by (simp add: last_conv_nth)
  qed
  with run show ?thesis by blast
qed

theorem output_channels_witness:
  "Unet_init (\<lambda>f. f) 1 (Some [32, 16]) (Some [16, 32, 64]) 5 probe_setup 0 = (Inr probe_net, 5)
   \<and> int (tensor_size (probe_input 1) 1) = 1
   \<and> (\<exists>out s2. Unet_forward probe_net (probe_input 1) 5 = (Inr out, s2)
         \<and> int (tensor_size out 1) = 16)
   \<and> Unet_init (\<lambda>f. f) 1 (Some []) (Some [4]) 5 frozen_setup 0 = (Inr frozen_net, 1)
   \<and> (\<exists>out s2. Unet_forward frozen_net (probe_input 1) 1 = (Inr out, s2)
         \<and> int (tensor_size out 1) = 4)"
proof -
  have cd: "\<forall>i<length [16, 32, 64 :: int]. \<forall>args kw st.
        int (tensor_size (fst (forward (path_down probe_net ! i) args kw st)) 1) = [16, 32, 64] ! i"
    by (simp add: All_less_Suc probe_net_def probe_down_forward_def tensor_size_def)
  have cu: "\<forall>i<length [32, 16 :: int]. \<forall>args kw st.
        int (tensor_size (fst (forward (path_up probe_net ! i) args kw st)) 1) = [32, 16] ! i"
    by (simp add: All_less_Suc probe_net_def probe_up_forward_channels tensor_size_def)
  have inp: "int (tensor_size (probe_input 1) 1) = 1"
    by (simp add: probe_input_def tensor_size_def)
  have fd: "\<forall>i<length [4 :: int]. \<forall>args kw st.
        int (tensor_size (fst (forward (path_down frozen_net ! i) args kw st)) 1) = [4] ! i"
    by (simp add: frozen_net_def probe_down_forward_def tensor_size_def)
  have fu: "\<forall>i<length ([] :: int list). \<forall>args kw st.
        int (tensor_size (fst (forward (path_up frozen_net ! i) args kw st)) 1) = [] ! i"
    by simp
  from output_channels [OF probe_init cd cu inp, of 5]
    output_channels [OF frozen_init fd fu inp, of 1]
  show ?thesis using probe_init frozen_init inp by simp
qed

section \<open>The claim about the recomputation wrapper\<close>




section \<open>The claim about the parameter count\<close>

text \<open>
  C8, as stated, fails: \<^verbatim>\<open>n_params\<close> counts a parameter whose gradient tracking is
  off. The one-stage network over the frozen block has \<^verbatim>\<open>n_params == 3\<close> and no
  trainable parameter.
\<close>

theorem n_params_counts_frozen:
  "Unet_init (\<lambda>f. f) 1 (Some []) (Some [4]) 5 frozen_setup 0 = (Inr frozen_net, 1)
   \<and> n_params frozen_net = 3
   \<and> sum_list (map numel (filter p_requires_grad
        (Unet_parameters (path_down frozen_net) (path_up frozen_net)))) = 0
   \<and> n_params frozen_net \<noteq> sum_list (map numel (filter p_requires_grad
        (Unet_parameters (path_down frozen_net) (path_up frozen_net))))"
  by (simp add: frozen_init) (simp add: frozen_net_def Unet_parameters_def)

text \<open>
  C8, amended. \<^verbatim>\<open>n_params\<close> of a constructed network is the sum of the element counts
  of all the parameters \<^verbatim>\<open>self.parameters()\<close> yields at that moment: every parameter of
  every block, each parameter object once, with gradient tracking or without. It is
  the sum over the trainable parameters when all of them are trainable. It is a stored
  number: replacing the blocks afterwards does not change it.
\<close>

theorem n_params_all_parameters:
  assumes "Unet_init ckpt nf (Some ups) (Some downs) sz stp s = (Inr net, s1)"
  shows "n_params net = sum_list (map numel (Unet_parameters (path_down net) (path_up net)))
    \<and> distinct (map ident (Unet_parameters (path_down net) (path_up net)))
    \<and> set (map ident (Unet_parameters (path_down net) (path_up net)))
        = set (map ident (concat (map parameters (path_down net))
                          @ concat (map parameters (path_up net))))
    \<and> ((\<forall>p \<in> set (Unet_parameters (path_down net) (path_up net)). p_requires_grad p) \<longrightarrow>
         n_params net = sum_list (map numel (filter p_requires_grad
           (Unet_parameters (path_down net) (path_up net)))))
    \<and> n_params (net\<lparr>path_down := pd, path_up := pu\<rparr>) = n_params net"
proof -
  let ?ps = "Unet_parameters (path_down net) (path_up net)"
  have n: "n_params net = sum_list (map numel ?ps)"
    using Unet_init_InrD(7) [OF assms] by (simp add: count_params_sum)
  have d: "distinct (map ident ?ps)"
    by (simp add: Unet_parameters_def dedup_params_distinct)
  have i: "set (map ident ?ps) = set (map ident (concat (map parameters (path_down net))
                          @ concat (map parameters (path_up net))))"
    unfolding Unet_parameters_def dedup_params_idents by simp
  have f: "(\<forall>p \<in> set ?ps. p_requires_grad p) \<longrightarrow>
      n_params net = sum_list (map numel (filter p_requires_grad ?ps))"
    using n by (simp add: filter_True cong: filter_cong)
  show ?thesis using n d i f by simp
qed

theorem n_params_all_parameters_witness:
  "Unet_init (\<lambda>f. f) 1 (Some [32, 16]) (Some [16, 32, 64]) 5 probe_setup 0 = (Inr probe_net, 5)
   \<and> n_params probe_net = 6416
   \<and> sum_list (map numel (Unet_parameters (path_down probe_net) (path_up probe_net))) = 6416
   \<and> sum_list (map numel (filter p_requires_grad
        (Unet_parameters (path_down probe_net) (path_up probe_net)))) = 6416"
proof -
  have ps: "Unet_parameters (path_down probe_net) (path_up probe_net) =
     [\<lparr>ident = 0, numel = 16, p_requires_grad = True\<rparr>,
      \<lparr>ident = 1, numel = 512, p_requires_grad = True\<rparr>,
      \<lparr>ident = 2, numel = 2048, p_requires_grad = True\<rparr>,
      \<lparr>ident = 3, numel = 3072, p_requires_grad = True\<rparr>,
      \<lparr>ident = 4, numel = 768, p_requires_grad = True\<rparr>]"
    by (simp add: probe_net_def Unet_parameters_def)
  from n_params_all_parameters [OF probe_init, of "[]" "[]"]
  have "n_params probe_net
      = sum_list (map numel (Unet_parameters (path_down probe_net) (path_up probe_net)))"
    and "(\<forall>p \<in> set (Unet_parameters (path_down probe_net) (path_up probe_net)). p_requires_grad p) \<longrightarrow>
         n_params probe_net = sum_list (map numel (filter p_requires_grad
           (Unet_parameters (path_down probe_net) (path_up probe_net))))"
    by blast+
  then show ?thesis using probe_init by (simp add: ps)
qed

section \<open>The claim about determinism\<close>

text \<open>
  C9. If what each block returns does not depend on the state outside the network (no
  dropout, no other source of randomness), then what \<^verbatim>\<open>forward\<close> returns, tensor or
  error, does not depend on it either: two calls on the same network with the same
  input return the same.
\<close>

theorem forward_deterministic:
  assumes "\<forall>m \<in> set (path_down net) \<union> set (path_up net).
             \<forall>args kw st st1. fst (forward m args kw st) = fst (forward m args kw st1)"
  shows "fst (Unet_forward net inp s) = fst (Unet_forward net inp s1)"
proof (cases "int (tensor_size inp 1) = in_features net")
  case False
  then show ?thesis by (simp add: Unet_forward_mismatch)
next
  case True
  obtain fs t where e: "encoder_loop (path_down net) [inp] s = (fs, t)"
    by (cases "encoder_loop (path_down net) [inp] s")
  obtain fs1 t1 where e1: "encoder_loop (path_down net) [inp] s1 = (fs1, t1)"
    by (cases "encoder_loop (path_down net) [inp] s1")
  have "fst (encoder_loop (path_down net) [inp] s) = fst (encoder_loop (path_down net) [inp] s1)"
    using assms by (intro encoder_loop_state_indep) simp
  with e e1 have fs: "fs1 = fs" by simp
  have "\<forall>m \<in> fst ` set (zip (path_up net) (slice_m2_rev fs)).
          \<forall>args kw st st1. fst (forward m args kw st) = fst (forward m args kw st1)"
    using assms by (auto dest: set_zip_leftD)
  then have "fst (decoder_loop (zip (path_up net) (slice_m2_rev fs)) (last fs) t)
      = fst (decoder_loop (zip (path_up net) (slice_m2_rev fs)) (last fs) t1)"
    by (rule decoder_loop_state_indep)
  then show ?thesis
    using True e e1 fs by (auto simp: Unet_forward_match split: prod.splits)
qed

theorem forward_deterministic_witness:
  "fst (Unet_forward probe_net (probe_input 1) 5) = fst (Unet_forward probe_net (probe_input 1) 77)
   \<and> fst (Unet_forward probe_net (probe_input 1) 5) =
       Inr \<lparr>batch = 1, channels = 16, height = 1, width = 1, requires_grad = False,
            content = ''up_1(up_0(down_2,down_1),down_0)''\<rparr>"
proof -
  have h: "\<forall>m \<in> set (path_down probe_net) \<union> set (path_up probe_net).
             \<forall>args kw st st1. fst (forward m args kw st) = fst (forward m args kw st1)"
    using probe_up_forward_state_indep
    by (auto simp: probe_net_def probe_down_forward_def)
  from forward_deterministic [OF h, of "probe_input 1" 5 77] probe_forward_run
  show ?thesis by simp
qed

section \<open>The claim about the default schedules\<close>

text \<open>
  C10. Called with the defaults \<^verbatim>\<open>up=None, down=None\<close>, the constructor raises the
  \<^verbatim>\<open>TypeError\<close> of \<^verbatim>\<open>len(None)\<close>, not the \<^verbatim>\<open>ValueError\<close> of line 55, and no block
  constructor runs.
\<close>

theorem default_schedules_TypeError:
  "Unet_init ckpt nf None None sz stp s
     = (Inl (TypeError ''object of type 'NoneType' has no len()''), s)"
  by (simp add: Unet_init_def)

end
